theory Spec2Isabelle
  imports Complex_Main
begin

text \<open>
  A model of the heat-solver plotting scripts.  \<open>src/heat-solver-main/plot_results.py\<close>
  is the script modelled throughout, and line numbers refer to it; the last section of
  definitions covers the error statistics of the earlier \<open>src/plot_results.py\<close>.

  The model keeps what the scripts compute from a table: the coercion of the value
  columns, the error column, the time layers and snapshots, the curve of the error panel
  and its axis limits, the heat-map matrix, the error summary, the comparison loop and the
  command line.  What matplotlib does with the data is not computed.  In \<open>plot_results\<close>
  every run of calls into matplotlib is a step that returns or raises, and which of the
  two is a parameter of the model, a function of the data handed over.  For
  \<open>compare_methods\<close> the model follows the loop over the sources and the reading of the
  reference curve (lines 195-240).  Every exception is a value of \<open>py_error\<close>.
\<close>

section \<open>Floating-point values\<close>

text \<open>
  The script computes with numpy/pandas \<open>float64\<close> values.  A value is a finite number,
  one of the two infinities, or not-a-number.  Finite numbers are modelled as reals:
  rounding and overflow of finite arithmetic are not modelled; the special values follow
  IEEE 754 as numpy implements it.
\<close>

datatype fl = Fin real | PInf | NInf | NaN

fun isfinite :: "fl \<Rightarrow> bool" where
  "isfinite (Fin a) = True"
| "isfinite PInf = False"
| "isfinite NInf = False"
| "isfinite NaN = False"

fun isnan :: "fl \<Rightarrow> bool" where
  "isnan NaN = True"
| "isnan (Fin a) = False"
| "isnan PInf = False"
| "isnan NInf = False"

fun fl_neg :: "fl \<Rightarrow> fl" where
  "fl_neg (Fin a) = Fin (- a)"
| "fl_neg PInf = NInf"
| "fl_neg NInf = PInf"
| "fl_neg NaN = NaN"

fun fl_add :: "fl \<Rightarrow> fl \<Rightarrow> fl" where
  "fl_add NaN b = NaN"
| "fl_add a NaN = NaN"
| "fl_add (Fin a) (Fin b) = Fin (a + b)"
| "fl_add PInf NInf = NaN"
| "fl_add NInf PInf = NaN"
| "fl_add PInf b = PInf"
| "fl_add NInf b = NInf"
| "fl_add (Fin a) PInf = PInf"
| "fl_add (Fin a) NInf = NInf"

definition fl_sub :: "fl \<Rightarrow> fl \<Rightarrow> fl" where
  "fl_sub a b = fl_add a (fl_neg b)"

text \<open>\<open>np.abs\<close>.\<close>

fun fl_abs :: "fl \<Rightarrow> fl" where
  "fl_abs (Fin a) = Fin \<bar>a\<bar>"
| "fl_abs PInf = PInf"
| "fl_abs NInf = PInf"
| "fl_abs NaN = NaN"

text \<open>\<open>v ** 2\<close>.\<close>

fun fl_sq :: "fl \<Rightarrow> fl" where
  "fl_sq (Fin a) = Fin (a * a)"
| "fl_sq PInf = PInf"
| "fl_sq NInf = PInf"
| "fl_sq NaN = NaN"

text \<open>Division of a sum by a positive count, as in a mean.\<close>

fun fl_div_count :: "fl \<Rightarrow> nat \<Rightarrow> fl" where
  "fl_div_count (Fin a) n = Fin (a / real n)"
| "fl_div_count PInf n = PInf"
| "fl_div_count NInf n = NInf"
| "fl_div_count NaN n = NaN"

text \<open>\<open>np.sqrt\<close>: not-a-number below zero.\<close>

fun fl_sqrt :: "fl \<Rightarrow> fl" where
  "fl_sqrt (Fin a) = (if a < 0 then NaN else Fin (sqrt a))"
| "fl_sqrt PInf = PInf"
| "fl_sqrt NInf = NaN"
| "fl_sqrt NaN = NaN"

text \<open>The order of the values that are not NaN: \<open>-inf < finite < inf\<close>.\<close>

fun fl_le :: "fl \<Rightarrow> fl \<Rightarrow> bool" where
  "fl_le NaN b = False"
| "fl_le a NaN = False"
| "fl_le NInf b = True"
| "fl_le a PInf = True"
| "fl_le (Fin a) (Fin b) = (a \<le> b)"
| "fl_le PInf b = False"
| "fl_le (Fin a) NInf = False"

text \<open>\<open>np.maximum\<close>, one element: NaN if either argument is NaN, else the larger.\<close>

definition np_maximum :: "fl \<Rightarrow> fl \<Rightarrow> fl" where
  "np_maximum a b = (if isnan a \<or> isnan b then NaN else if fl_le a b then b else a)"

text \<open>The smaller of two values, NaN if either is NaN.\<close>

definition np_minimum :: "fl \<Rightarrow> fl \<Rightarrow> fl" where
  "np_minimum a b = (if isnan a \<or> isnan b then NaN else if fl_le a b then a else b)"

text \<open>\<open>v * c\<close> for a constant \<open>c > 0\<close>.\<close>

fun fl_scale :: "fl \<Rightarrow> real \<Rightarrow> fl" where
  "fl_scale (Fin a) c = Fin (a * c)"
| "fl_scale PInf c = PInf"
| "fl_scale NInf c = NInf"
| "fl_scale NaN c = NaN"

text \<open>
  Python's \<open>max(a, b)\<close>: the second argument when it compares greater than the first,
  else the first.
\<close>

definition py_max :: "fl \<Rightarrow> fl \<Rightarrow> fl" where
  "py_max a b = (if fl_le a b \<and> \<not> fl_le b a then b else a)"

section \<open>Series reductions\<close>

text \<open>
  \<open>np.mean\<close>, \<open>np.max\<close> and \<open>np.min\<close> of a pandas Series call the Series' own
  \<open>mean\<close>, \<open>max\<close> and \<open>min\<close>, which skip NaN entries and return NaN when nothing is
  left.
\<close>

definition dropna :: "fl list \<Rightarrow> fl list" where
  "dropna s = filter (\<lambda>v. \<not> isnan v) s"

definition series_sum :: "fl list \<Rightarrow> fl" where
  "series_sum s = foldl fl_add (Fin 0) s"

definition series_mean :: "fl list \<Rightarrow> fl" where
  "series_mean s =
     (let vs = dropna s in if vs = [] then NaN else fl_div_count (series_sum vs) (length vs))"

definition series_max :: "fl list \<Rightarrow> fl" where
  "series_max s =
     (let vs = dropna s in if vs = [] then NaN else foldl np_maximum (hd vs) (tl vs))"

definition series_min :: "fl list \<Rightarrow> fl" where
  "series_min s =
     (let vs = dropna s in if vs = [] then NaN else foldl np_minimum (hd vs) (tl vs))"

section \<open>The table read from a CSV file\<close>

text \<open>
  A cell of a value column is either text that parses as a float or another token.
  \<open>pd.to_numeric(..., errors="coerce")\<close> turns the latter into NaN.
\<close>

datatype cell = Num fl | Tok string

fun to_numeric :: "cell \<Rightarrow> fl" where
  "to_numeric (Num v) = v"
| "to_numeric (Tok s) = NaN"

text \<open>
  One line of the file: the coordinates, the two value columns and the \<open>error\<close> column
  the solver may have written (\<open>None\<close> when the file has no such column).
\<close>

record csv_row =
  raw_t :: real
  raw_x :: real
  raw_u_numeric :: cell
  raw_u_exact :: cell
  raw_error :: "cell option"

text \<open>A row of the data frame after lines 17-22 of \<open>plot_results\<close>.\<close>

record frame_row =
  col_t :: real
  col_x :: real
  col_u_numeric :: fl
  col_u_exact :: fl
  col_error :: fl

text \<open>\<open>df.replace([np.inf, -np.inf], np.nan)\<close>, one value.\<close>

fun replace_inf :: "fl \<Rightarrow> fl" where
  "replace_inf PInf = NaN"
| "replace_inf NInf = NaN"
| "replace_inf v = v"

text \<open>
  Lines 18-22: both value columns are coerced, the \<open>error\<close> column is overwritten with
  \<open>|u_numeric - u_exact|\<close>, and then every infinity of the frame becomes NaN.
\<close>

definition recompute_row :: "csv_row \<Rightarrow> frame_row" where
  "recompute_row r =
     (let un = to_numeric (raw_u_numeric r);
          ue = to_numeric (raw_u_exact r);
          err = fl_abs (fl_sub un ue)
      in \<lparr>col_t = raw_t r, col_x = raw_x r,
          col_u_numeric = replace_inf un, col_u_exact = replace_inf ue,
          col_error = replace_inf err\<rparr>)"

definition recompute_error :: "csv_row list \<Rightarrow> frame_row list" where
  "recompute_error rows = map recompute_row rows"

section \<open>Snapshots\<close>

text \<open>\<open>sorted(df[c].unique())\<close>.\<close>

definition sorted_unique :: "real list \<Rightarrow> real list" where
  "sorted_unique vs = sort (remdups vs)"

text \<open>
  \<open>df[df["t"] == t].sort_values("x")\<close>.  Rows of one layer with the same \<open>x\<close> keep their
  order here; pandas promises no order among them.
\<close>

definition snapshot :: "frame_row list \<Rightarrow> real \<Rightarrow> frame_row list" where
  "snapshot df tv = sort_key col_x (filter (\<lambda>r. col_t r = tv) df)"

text \<open>\<open>final_data["error"][valid]\<close> and \<open>final_data["x"][valid]\<close>, with
  \<open>valid = np.isfinite(final_data["error"])\<close>.\<close>

definition valid_rows :: "frame_row list \<Rightarrow> frame_row list" where
  "valid_rows final_data = filter (\<lambda>r. isfinite (col_error r)) final_data"

section \<open>The error panel and the log floor\<close>

definition epsilon :: real where
  "epsilon = 1 / 10 ^ 20"

text \<open>\<open>np.maximum(err_valid, epsilon)\<close>, one element.\<close>

definition log_floor :: "fl \<Rightarrow> fl" where
  "log_floor v = np_maximum v (Fin epsilon)"

text \<open>
  Graph 3 (lines 86-119): the curve drawn on the log axis with the two limits handed to
  \<open>set_ylim\<close>, \<open>max(np.min(err_plot) * 0.5, epsilon)\<close> and \<open>np.max(err_plot) * 2\<close>, or
  the text placed instead of the curve.
\<close>

datatype error_panel = ErrorCurve "real list" "fl list" fl fl | NoValidData

definition error_distribution :: "frame_row list \<Rightarrow> error_panel" where
  "error_distribution final_data =
     (let x_valid = map col_x (valid_rows final_data);
          err_valid = map col_error (valid_rows final_data)
      in if length err_valid > 0
         then (let err_plot = map log_floor err_valid
               in ErrorCurve x_valid err_plot
                    (py_max (fl_scale (series_min err_plot) (1 / 2)) (Fin epsilon))
                    (fl_scale (series_max err_plot) 2))
         else NoValidData)"

section \<open>The error summary\<close>

record error_summary =
  l2_error :: fl
  linf_error :: fl
  mean_error :: fl

text \<open>Lines 160-165 and 190.\<close>

definition error_statistics :: "fl list \<Rightarrow> error_summary" where
  "error_statistics err_valid =
     (if length err_valid > 0
      then \<lparr>l2_error = fl_sqrt (series_mean (map fl_sq err_valid)),
            linf_error = series_max err_valid,
            mean_error = series_mean err_valid\<rparr>
      else \<lparr>l2_error = NaN, linf_error = NaN, mean_error = NaN\<rparr>)"

section \<open>Exceptions\<close>

datatype py_error = IndexError | ValueError | FileNotFoundError | KeyError | TypeError

text \<open>\<open>xs[i]\<close> for an index that is not negative.\<close>

definition list_get :: "'a list \<Rightarrow> nat \<Rightarrow> py_error + 'a" where
  "list_get xs i = (if i < length xs then Inr (xs ! i) else Inl IndexError)"

section \<open>Graph 1: the snapshots drawn\<close>

text \<open>
  \<open>np.linspace(0, n - 1, min(6, n), dtype=int)\<close>: evenly spaced positions, truncated to
  integers (computed here in exact arithmetic).
\<close>

definition snapshot_indices :: "nat \<Rightarrow> nat list" where
  "snapshot_indices n =
     (let num_snapshots = min 6 n
      in if num_snapshots = 0 then []
         else if num_snapshots = 1 then [0]
         else map (\<lambda>i. (i * (n - 1)) div (num_snapshots - 1)) [0..<num_snapshots])"

section \<open>Graph 4: the heat map\<close>

text \<open>\<open>vs[::step]\<close> for \<open>step \<ge> 1\<close>.\<close>

fun stride_slice :: "nat \<Rightarrow> 'a list \<Rightarrow> 'a list" where
  "stride_slice step [] = []"
| "stride_slice step (v # vs) = v # stride_slice step (drop (step - 1) vs)"

definition heatmap_step :: "nat \<Rightarrow> nat" where
  "heatmap_step num_times = max 1 (num_times div 50)"

definition heatmap_times :: "frame_row list \<Rightarrow> real list" where
  "heatmap_times df =
     (let t_vals = sorted_unique (map col_t df)
      in stride_slice (heatmap_step (length t_vals)) t_vals)"

fun fillna :: "real \<Rightarrow> fl \<Rightarrow> fl" where
  "fillna d NaN = Fin d"
| "fillna d v = v"

text \<open>
  \<open>u_matrix[i, :] = row.values\<close>: numpy broadcasts a row of one value over the columns
  and refuses any other length than the number of columns.
\<close>

definition assign_row :: "nat \<Rightarrow> fl list \<Rightarrow> py_error + fl list" where
  "assign_row ncols vals =
     (if length vals = ncols then Inr vals
      else if length vals = 1 then Inr (replicate ncols (hd vals))
      else Inl ValueError)"

fun fill_matrix :: "frame_row list \<Rightarrow> nat \<Rightarrow> real list \<Rightarrow> py_error + fl list list" where
  "fill_matrix df ncols [] = Inr []"
| "fill_matrix df ncols (tv # tvs) =
     (case assign_row ncols (map (\<lambda>r. fillna 0 (col_u_numeric r)) (snapshot df tv)) of
        Inl e \<Rightarrow> Inl e
      | Inr row \<Rightarrow>
          (case fill_matrix df ncols tvs of
             Inl e \<Rightarrow> Inl e
           | Inr rows \<Rightarrow> Inr (row # rows)))"

record heatmap =
  hm_positions :: "real list"
  hm_times :: "real list"
  hm_matrix :: "fl list list"

definition heat_map :: "frame_row list \<Rightarrow> py_error + heatmap" where
  "heat_map df =
     (let x_vals = sorted_unique (map col_x df);
          t_vals_subset = heatmap_times df
      in case fill_matrix df (length x_vals) t_vals_subset of
           Inl e \<Rightarrow> Inl e
         | Inr u_matrix \<Rightarrow>
             Inr \<lparr>hm_positions = x_vals, hm_times = t_vals_subset, hm_matrix = u_matrix\<rparr>)"

section \<open>\<open>plot_results\<close>\<close>

record figure =
  fig_method :: string
  fig_times :: "real list"
  fig_evolution :: "(real \<times> (real \<times> fl) list) list"
  fig_final_t :: real
  fig_numeric :: "(real \<times> fl) list"
  fig_exact :: "(real \<times> fl) list"
  fig_error_panel :: error_panel
  fig_heatmap :: heatmap
  fig_summary :: error_summary

text \<open>
  The calls into matplotlib, grouped into the runs of calls between two steps of the
  script's own that can raise (\<open>times[t_idx]\<close>, \<open>times[-1]\<close> and the assignment of
  line 142), with the data each run is handed.
\<close>

datatype drawing =
    NewFigure
  | EvolutionCurve real "(real \<times> fl) list"
  | EvolutionAxes string
  | FinalGraphs real "(real \<times> fl) list" "(real \<times> fl) list" error_panel
  | HeatMapAndOutput figure

text \<open>
  \<open>NewFigure\<close> is lines 27-36, \<open>EvolutionCurve\<close> the \<open>ax1.plot\<close> of lines 41-47,
  \<open>EvolutionAxes\<close> lines 49-57, \<open>FinalGraphs\<close> lines 62-129 (graph 2 and graph 3, with
  \<open>set_ylim\<close> at lines 106-109), \<open>HeatMapAndOutput\<close> lines 144-184 (\<open>imshow\<close>, the colour
  bar, the title, \<open>tight_layout\<close>, \<open>savefig\<close> and \<open>show\<close>).

  A renderer says for each run whether it returns (\<open>None\<close>) or raises.  It stands for
  matplotlib together with the float arithmetic behind it, which the model does not
  compute: on values near the largest float, \<open>set_ylim\<close> and \<open>tight_layout\<close> raise
  \<open>ValueError\<close>.
\<close>

type_synonym renderer = "drawing \<Rightarrow> py_error option"

text \<open>A renderer none of whose calls raises.\<close>

definition quiet :: renderer where
  "quiet d = None"

text \<open>The rest of the run follows a call only when the call returns.\<close>

definition after_call :: "py_error option \<Rightarrow> py_error + 'a \<Rightarrow> py_error + 'a" where
  "after_call r rest = (case r of Some e \<Rightarrow> Inl e | None \<Rightarrow> rest)"

text \<open>The loop of lines 38-47 over the snapshot indices.\<close>

fun solution_evolution ::
  "renderer \<Rightarrow> frame_row list \<Rightarrow> real list \<Rightarrow> nat list
     \<Rightarrow> py_error + (real \<times> (real \<times> fl) list) list" where
  "solution_evolution draw df time_vals [] = Inr []"
| "solution_evolution draw df time_vals (t_idx # rest) =
     (case list_get time_vals t_idx of
        Inl e \<Rightarrow> Inl e
      | Inr tv \<Rightarrow>
          (let curve = map (\<lambda>r. (col_x r, col_u_numeric r)) (snapshot df tv)
           in after_call (draw (EvolutionCurve tv curve))
                (case solution_evolution draw df time_vals rest of
                   Inl e \<Rightarrow> Inl e
                 | Inr curves \<Rightarrow> Inr ((tv, curve) # curves))))"

text \<open>
  Lines 24-191, on the frame of lines 15-22.  \<open>times[-1]\<close> raises on a frame without
  rows; the heat map raises when a time layer does not fit the matrix; every run of
  drawing calls raises when the renderer says so.
\<close>

definition plot_frame :: "renderer \<Rightarrow> string \<Rightarrow> frame_row list \<Rightarrow> py_error + figure" where
  "plot_frame draw method_name df =
     (let time_vals = sorted_unique (map col_t df)
      in after_call (draw NewFigure)
           (case solution_evolution draw df time_vals (snapshot_indices (length time_vals)) of
              Inl e \<Rightarrow> Inl e
            | Inr curves \<Rightarrow>
                after_call (draw (EvolutionAxes method_name))
                  (if time_vals = [] then Inl IndexError
                   else
                     (let final_t = last time_vals;
                          final_data = snapshot df final_t;
                          numeric = map (\<lambda>r. (col_x r, col_u_numeric r)) final_data;
                          exact = map (\<lambda>r. (col_x r, col_u_exact r)) final_data;
                          panel = error_distribution final_data;
                          err_valid = map col_error (valid_rows final_data)
                      in after_call (draw (FinalGraphs final_t numeric exact panel))
                           (case heat_map df of
                              Inl e \<Rightarrow> Inl e
                            | Inr hm \<Rightarrow>
                                (let fig = \<lparr>fig_method = method_name, fig_times = time_vals,
                                             fig_evolution = curves, fig_final_t = final_t,
                                             fig_numeric = numeric, fig_exact = exact,
                                             fig_error_panel = panel, fig_heatmap = hm,
                                             fig_summary = error_statistics err_valid\<rparr>
                                 in after_call (draw (HeatMapAndOutput fig)) (Inr fig)))))))"

text \<open>
  The files the script can see: a path either does not exist or holds a table.
\<close>

type_synonym filesystem = "string \<Rightarrow> csv_row list option"

text \<open>
  What one call of \<open>plot_results\<close> leaves behind when it returns: the message of
  lines 10-12, or the saved figure with its statistics.
\<close>

datatype outcome = NotFound string | Saved figure

definition plot_results ::
  "renderer \<Rightarrow> filesystem \<Rightarrow> string \<Rightarrow> string \<Rightarrow> py_error + outcome" where
  "plot_results draw fs csv_file method_name =
     (case fs csv_file of
        None \<Rightarrow> Inr (NotFound (''Error: File '' @ csv_file @ '' not found!''))
      | Some rows \<Rightarrow>
          (case plot_frame draw method_name (recompute_error rows) of
             Inl e \<Rightarrow> Inl e
           | Inr fig \<Rightarrow> Inr (Saved fig)))"

section \<open>\<open>compare_methods\<close>\<close>

definition colors :: "string list" where
  "colors = [''blue'', ''red'', ''green'', ''orange'']"

definition markers :: "string list" where
  "markers = [''o'', ''s'', ''^'', ''d'']"

record method_entry =
  me_idx :: nat
  me_label :: string
  me_color :: string
  me_marker :: string
  me_x_valid :: "real list"
  me_u_valid :: "fl list"
  me_err_valid :: "fl list"
  me_l2_error :: fl
  me_linf_error :: fl

text \<open>
  \<open>final_t = df["t"].max()\<close> and \<open>df[df["t"] == final_t].sort_values("x")\<close>; on a frame
  without rows the maximum is NaN and the selection is empty.
\<close>

definition final_snapshot :: "frame_row list \<Rightarrow> frame_row list" where
  "final_snapshot df = (if df = [] then [] else snapshot df (Max (set (map col_t df))))"

text \<open>Lines 206-231 for one file that exists.\<close>

definition method_entry_of ::
  "nat \<Rightarrow> string \<Rightarrow> csv_row list \<Rightarrow> py_error + method_entry" where
  "method_entry_of idx method rows =
     (let df = recompute_error rows;
          final_data = final_snapshot df;
          err_valid = map col_error (valid_rows final_data)
      in case list_get colors idx of
           Inl e \<Rightarrow> Inl e
         | Inr color \<Rightarrow>
             (case list_get markers idx of
                Inl e \<Rightarrow> Inl e
              | Inr marker \<Rightarrow>
                  Inr \<lparr>me_idx = idx, me_label = method, me_color = color, me_marker = marker,
                       me_x_valid = map col_x (valid_rows final_data),
                       me_u_valid = map col_u_numeric (valid_rows final_data),
                       me_err_valid = err_valid,
                       me_l2_error = fl_sqrt (series_mean (map fl_sq err_valid)),
                       me_linf_error = series_max err_valid\<rparr>))"

definition warning :: "string \<Rightarrow> string" where
  "warning csv_file = ''WARNING: '' @ csv_file @ '' not found, skipped''"

text \<open>
  The loop of lines 201-231 over \<open>enumerate(zip(csv_files, method_names))\<close>; the state is
  the warnings printed and the methods drawn so far.
\<close>

fun compare_loop ::
  "filesystem \<Rightarrow> (nat \<times> string \<times> string) list \<Rightarrow> string list \<times> method_entry list
     \<Rightarrow> py_error + string list \<times> method_entry list" where
  "compare_loop fs [] st = Inr st"
| "compare_loop fs ((idx, csv_file, method) # rest) (warnings, entries) =
     (case fs csv_file of
        None \<Rightarrow> compare_loop fs rest (warnings @ [warning csv_file], entries)
      | Some rows \<Rightarrow>
          (case method_entry_of idx method rows of
             Inl e \<Rightarrow> Inl e
           | Inr entry \<Rightarrow> compare_loop fs rest (warnings, entries @ [entry])))"

text \<open>
  Lines 234-240: the file is read again, only \<open>u_exact\<close> is coerced, and the rows of the
  largest time are taken in the order of \<open>x\<close>.
\<close>

definition analytical_curve :: "csv_row list \<Rightarrow> (real \<times> fl) list" where
  "analytical_curve rows =
     (if rows = [] then []
      else map (\<lambda>r. (raw_x r, to_numeric (raw_u_exact r)))
             (sort_key raw_x (filter (\<lambda>r. raw_t r = Max (set (map raw_t rows))) rows)))"

record comparison =
  cmp_warnings :: "string list"
  cmp_methods :: "method_entry list"
  cmp_analytical :: "(real \<times> fl) list option"

definition compare_methods ::
  "filesystem \<Rightarrow> string list \<Rightarrow> string list \<Rightarrow> py_error + comparison" where
  "compare_methods fs csv_files method_names =
     (case compare_loop fs (enumerate 0 (zip csv_files method_names)) ([], []) of
        Inl e \<Rightarrow> Inl e
      | Inr (warnings, entries) \<Rightarrow>
          if csv_files \<noteq> []
          then (case fs (hd csv_files) of
                  None \<Rightarrow> Inl FileNotFoundError
                | Some rows \<Rightarrow>
                    Inr \<lparr>cmp_warnings = warnings, cmp_methods = entries,
                         cmp_analytical = Some (analytical_curve rows)\<rparr>)
          else Inr \<lparr>cmp_warnings = warnings, cmp_methods = entries, cmp_analytical = None\<rparr>)"

section \<open>The command line\<close>

text \<open>
  The exit status of the script for \<open>sys.argv\<close>: \<open>sys.exit(1)\<close> after a usage
  message, 1 when an exception ends the run, 0 when the called function returns.
\<close>

definition exit_status :: "py_error + 'a \<Rightarrow> nat" where
  "exit_status r = (case r of Inl e \<Rightarrow> 1 | Inr v \<Rightarrow> 0)"

definition main :: "renderer \<Rightarrow> filesystem \<Rightarrow> string list \<Rightarrow> nat" where
  "main draw fs argv =
     (if length argv < 2 then 1
      else if argv ! 1 = ''compare''
      then (if length argv < 4 \<or> length argv mod 2 \<noteq> 0 then 1
            else exit_status (compare_methods fs (stride_slice 2 (drop 2 argv))
                                (stride_slice 2 (drop 3 argv))))
      else exit_status (plot_results draw fs (argv ! 1)
                          (if length argv > 2 then argv ! 2 else ''Unknown'')))"

section \<open>The earlier script, \<open>src/plot_results.py\<close>\<close>

text \<open>
  The earlier \<open>plot_results\<close> takes the columns as the file has them: nothing is
  coerced.  Its steps that handle the table are, in order: \<open>times[-1]\<close> (line 47), which
  raises \<open>IndexError\<close> on a file without rows; \<open>final_data['error']\<close> (line 63), which
  raises \<open>KeyError\<close> on a file without the column; the heat map (lines 74-84); and the
  statistics of the stored \<open>error\<close> column (lines 95-96 and 114), where a column with a
  token anywhere is a column of strings, whose square raises \<open>TypeError\<close>.
\<close>

text \<open>
  The values of \<open>data['u_numeric'].values\<close> as line 84 assigns them to a row of floats:
  a token cannot be converted.
\<close>

fun raw_values :: "cell list \<Rightarrow> py_error + fl list" where
  "raw_values [] = Inr []"
| "raw_values (Tok s # cs) = Inl ValueError"
| "raw_values (Num v # cs) =
     (case raw_values cs of Inl e \<Rightarrow> Inl e | Inr vs \<Rightarrow> Inr (v # vs))"

fun legacy_fill_matrix :: "csv_row list \<Rightarrow> nat \<Rightarrow> real list \<Rightarrow> py_error + fl list list" where
  "legacy_fill_matrix rows ncols [] = Inr []"
| "legacy_fill_matrix rows ncols (tv # tvs) =
     (case raw_values (map raw_u_numeric (sort_key raw_x (filter (\<lambda>r. raw_t r = tv) rows))) of
        Inl e \<Rightarrow> Inl e
      | Inr vals \<Rightarrow>
          (case assign_row ncols vals of
             Inl e \<Rightarrow> Inl e
           | Inr row \<Rightarrow>
               (case legacy_fill_matrix rows ncols tvs of
                  Inl e \<Rightarrow> Inl e
                | Inr u_matrix \<Rightarrow> Inr (row # u_matrix))))"

definition legacy_heat_map :: "csv_row list \<Rightarrow> py_error + fl list list" where
  "legacy_heat_map rows =
     (let x_vals = sorted_unique (map raw_x rows);
          t_vals = sorted_unique (map raw_t rows);
          t_vals_subset = stride_slice (heatmap_step (length t_vals)) t_vals
      in legacy_fill_matrix rows (length x_vals) t_vals_subset)"

fun stored_error :: "cell option \<Rightarrow> py_error + fl" where
  "stored_error None = Inl KeyError"
| "stored_error (Some (Tok s)) = Inl TypeError"
| "stored_error (Some (Num v)) = Inr v"

fun stored_errors :: "csv_row list \<Rightarrow> py_error + fl list" where
  "stored_errors [] = Inr []"
| "stored_errors (r # rs) =
     (case stored_error (raw_error r) of
        Inl e \<Rightarrow> Inl e
      | Inr v \<Rightarrow> (case stored_errors rs of Inl e \<Rightarrow> Inl e | Inr vs \<Rightarrow> Inr (v # vs)))"

definition legacy_error_statistics :: "csv_row list \<Rightarrow> py_error + error_summary" where
  "legacy_error_statistics rows =
     (let time_vals = sorted_unique (map raw_t rows)
      in if time_vals = [] then Inl IndexError
         else if list_ex (\<lambda>r. raw_error r = None) rows then Inl KeyError
         else
           (case legacy_heat_map rows of
              Inl e \<Rightarrow> Inl e
            | Inr u_matrix \<Rightarrow>
                (case stored_errors rows of
                   Inl e \<Rightarrow> Inl e
                 | Inr column \<Rightarrow>
                     (case stored_errors
                             (sort_key raw_x (filter (\<lambda>r. raw_t r = last time_vals) rows)) of
                        Inl e \<Rightarrow> Inl e
                      | Inr errs \<Rightarrow>
                          Inr \<lparr>l2_error = fl_sqrt (series_mean (map fl_sq errs)),
                               linf_error = series_max errs,
                               mean_error = series_mean errs\<rparr>))))"

section \<open>When the heat map can be filled\<close>

text \<open>
  Every time layer the heat map draws has one row per distinct position, or a single
  row: the tables for which no assignment of line 142 is refused.
\<close>

definition fits_matrix :: "frame_row list \<Rightarrow> bool" where
  "fits_matrix df =
     list_all (\<lambda>tv. length (snapshot df tv) = length (sorted_unique (map col_x df))
                   \<or> length (snapshot df tv) = 1)
       (heatmap_times df)"

section \<open>Tokens and empty cells\<close>



section \<open>Example tables\<close>

definition table_row :: "real \<Rightarrow> real \<Rightarrow> cell \<Rightarrow> cell \<Rightarrow> csv_row" where
  "table_row tv xv un ue =
     \<lparr>raw_t = tv, raw_x = xv, raw_u_numeric = un, raw_u_exact = ue, raw_error = None\<rparr>"

text \<open>The scenario of the specification: \<open>t, x \<in> {0, 1}\<close>, both value columns equal.\<close>

definition scenario_rows :: "csv_row list" where
  "scenario_rows =
     [table_row 0 0 (Num (Fin 0)) (Num (Fin 0)), table_row 0 1 (Num (Fin 1)) (Num (Fin 1)),
      table_row 1 0 (Num (Fin 0)) (Num (Fin 0)), table_row 1 1 (Num (Fin 2)) (Num (Fin 2))]"


text \<open>The grid of the scenario with \<open>inf\<close> in both value columns of every row.\<close>

definition infinite_rows :: "csv_row list" where
  "infinite_rows =
     [table_row 0 0 (Num PInf) (Num PInf), table_row 0 1 (Num PInf) (Num PInf),
      table_row 1 0 (Num PInf) (Num PInf), table_row 1 1 (Num PInf) (Num PInf)]"

text \<open>Fifty-one time layers of one position each.\<close>

definition many_layers :: "csv_row list" where
  "many_layers = map (\<lambda>i. table_row (real i) 0 (Num (Fin 0)) (Num (Fin 0))) [0..<51]"

text \<open>
  One row whose stored \<open>error\<close> column says 1 while the two values are equal.
\<close>

definition stale_error_rows :: "csv_row list" where
  "stale_error_rows =
     [\<lparr>raw_t = 1, raw_x = 0, raw_u_numeric = Num (Fin 1), raw_u_exact = Num (Fin 1),
       raw_error = Some (Num (Fin 1))\<rparr>]"

section \<open>Facts about sorted values and slices\<close>

lemma set_sorted_unique: "set (sorted_unique vs) = set vs"
  by (simp add: sorted_unique_def)

lemma length_sorted_unique: "length (sorted_unique vs) = card (set vs)"
  by (simp add: sorted_unique_def length_remdups_card_conv)

lemma sorted_unique_Nil: "sorted_unique vs = [] \<longleftrightarrow> vs = []"
  by (metis set_sorted_unique set_empty)

lemma sorted_sorted_unique: "sorted (sorted_unique vs)"
  by (simp add: sorted_unique_def)

lemma hd_sorted_unique: "vs \<noteq> [] \<Longrightarrow> hd (sorted_unique vs) = Min (set vs)"
proof -
  assume "vs \<noteq> []"
  then obtain a as where s: "sorted_unique vs = a # as"
    by (cases "sorted_unique vs") (auto simp: sorted_unique_Nil)
  have "sorted (a # as)" using sorted_sorted_unique [of vs] s by simp
  then have "Min (set (a # as)) = a"
    by (intro Min_eqI) auto
  then show ?thesis using s set_sorted_unique [of vs] by simp
qed

lemma last_sorted_unique: "vs \<noteq> [] \<Longrightarrow> last (sorted_unique vs) = Max (set vs)"
proof -
  assume "vs \<noteq> []"
  then have ne: "sorted_unique vs \<noteq> []" by (simp add: sorted_unique_Nil)
  have "Max (set (sorted_unique vs)) = last (sorted_unique vs)"
  proof (rule Max_eqI)
    fix y assume "y \<in> set (sorted_unique vs)"
    then obtain i where "i < length (sorted_unique vs)" "sorted_unique vs ! i = y"
      by (meson in_set_conv_nth)
    then show "y \<le> last (sorted_unique vs)"
      using sorted_sorted_unique [of vs] ne
      by (metis One_nat_def Suc_pred last_conv_nth length_greater_0_conv less_Suc_eq_le sorted_nth_mono diff_less zero_less_one)
  qed (use ne in auto)
  then show ?thesis by (simp add: set_sorted_unique)
qed

lemma length_stride_slice:
  "0 < k \<Longrightarrow> length (stride_slice k vs) = (length vs + k - 1) div k"
proof (induction k vs rule: stride_slice.induct)
  case (1 step)
  then show ?case by simp
next
  case (2 step v vs)
  show ?case
  proof (cases "step - 1 \<le> length vs")
    case True
    then have "length vs - (step - 1) + step - 1 = length vs" using 2 by simp
    then show ?thesis using 2 by simp
  next
    case False
    then have "length vs - (step - 1) + step - 1 = step - 1" by simp
    moreover have "(length vs + step) div step = 1" using False 2 by simp
    ultimately show ?thesis using 2 by simp
  qed
qed

lemma hd_stride_slice: "vs \<noteq> [] \<Longrightarrow> hd (stride_slice k vs) = hd vs"
  by (cases vs) auto

lemma stride_slice_Nil: "stride_slice k vs = [] \<longleftrightarrow> vs = []"
  by (cases vs) auto

lemma set_stride_slice: "set (stride_slice k vs) \<subseteq> set vs"
proof (induction k vs rule: stride_slice.induct)
  case (1 step)
  then show ?case by simp
next
  case (2 step v vs)
  then show ?case using set_drop_subset [of "step - 1" vs] by auto
qed

lemma distinct_filter_one:
  "distinct (map f xs) \<Longrightarrow> v \<in> f ` set xs \<Longrightarrow> length (filter (\<lambda>r. f r = v) xs) = 1"
proof (induction xs)
  case Nil
  then show ?case by simp
next
  case (Cons x xs)
  show ?case
  proof (cases "f x = v")
    case True
    have "f x \<notin> f ` set xs" using Cons.prems(1) by simp
    then have "\<forall>r \<in> set xs. f r \<noteq> v" using True by (metis imageI)
    then have "filter (\<lambda>r. f r = v) xs = []" by (simp add: filter_empty_conv)
    then show ?thesis using True by simp
  next
    case False
    then show ?thesis using Cons by auto
  qed
qed

lemma ceiling_div_nat:
  assumes "0 < k"
  shows "(n + k - 1) div k = nat \<lceil>real n / real k\<rceil>"
proof -
  define m where "m = (n + k - 1) div k"
  have eq: "m * k + (n + k - 1) mod k = n + k - 1"
    by (simp add: m_def)
  have lt: "(n + k - 1) mod k < k" using assms by simp
  have a: "n \<le> m * k" using eq lt by linarith
  have b: "m * k < n + k" using eq assms by linarith
  have k: "0 < real k" using assms by simp
  have "real n \<le> real m * real k" using a by (metis of_nat_le_iff of_nat_mult)
  then have 1: "real n / real k \<le> of_int (int m)" using k by (simp add: pos_divide_le_eq)
  have "real m * real k < real n + real k" using b by (metis of_nat_less_iff of_nat_mult of_nat_add)
  then have "(real m - 1) * real k < real n" by (simp add: algebra_simps)
  then have 2: "of_int (int m) - 1 < real n / real k" using k by (simp add: pos_less_divide_eq)
  have "\<lceil>real n / real k\<rceil> = int m" using 2 1 by (rule ceiling_unique)
  then show ?thesis by (simp add: m_def)
qed

lemma heatmap_rows_bound: "(n + heatmap_step n - 1) div heatmap_step n \<le> 99"
proof (cases "n < 50")
  case True
  then show ?thesis by (simp add: heatmap_step_def)
next
  case False
  define q where "q = n div 50"
  have q: "1 \<le> q" using False by (simp add: q_def)
  have "n < 50 * q + 50" unfolding q_def by presburger
  then have "n + q - 1 < 100 * q" using q by simp
  then have "(n + q - 1) div q < 100" using q
    by (simp add: less_mult_imp_div_less)
  then show ?thesis using q by (simp add: heatmap_step_def q_def max_def)
qed

lemma heatmap_rows_cap:
  "n \<le> 50 \<or> 50 dvd n \<Longrightarrow> (n + heatmap_step n - 1) div heatmap_step n \<le> 50"
proof (cases "n \<le> 50")
  case True
  then have "heatmap_step n = 1" by (cases "n = 50") (auto simp: heatmap_step_def)
  then show ?thesis using True by simp
next
  case False
  assume "n \<le> 50 \<or> 50 dvd n"
  with False obtain q where q: "n = 50 * q" by (auto elim: dvdE)
  with False have q1: "1 < q" by simp
  then have s: "heatmap_step (50 * q) = q" by (simp add: heatmap_step_def)
  have "(50 * q + q - 1) div q = 50"
    by (rule div_nat_eqI) (use q1 in simp_all)
  then show ?thesis by (simp add: q s)
qed

section \<open>Facts about the heat map\<close>

lemma assign_row_Inr:
  "assign_row ncols vals = Inr row \<Longrightarrow> length row = ncols"
  by (auto simp: assign_row_def split: if_splits)


lemma assign_row_fits:
  "length vals = ncols \<or> length vals = 1 \<Longrightarrow> \<exists>row. assign_row ncols vals = Inr row"
  by (auto simp: assign_row_def)

lemma fill_matrix_Inr:
  "fill_matrix df ncols tvs = Inr m \<Longrightarrow>
     length m = length tvs \<and> list_all (\<lambda>row. length row = ncols) m \<and>
     (tvs \<noteq> [] \<longrightarrow>
        assign_row ncols (map (\<lambda>r. fillna 0 (col_u_numeric r)) (snapshot df (hd tvs))) = Inr (hd m))"
proof (induction tvs arbitrary: m)
  case Nil
  then show ?case by simp
next
  case (Cons tv tvs)
  then show ?case
    by (auto split: sum.splits dest: assign_row_Inr)
qed


lemma fill_matrix_fits:
  "list_all (\<lambda>tv. length (snapshot df tv) = ncols \<or> length (snapshot df tv) = 1) tvs \<Longrightarrow>
     \<exists>m. fill_matrix df ncols tvs = Inr m"
proof (induction tvs)
  case Nil
  then show ?case by simp
next
  case (Cons tv tvs)
  then obtain m where m: "fill_matrix df ncols tvs = Inr m" by auto
  from Cons.prems obtain row where
    "assign_row ncols (map (\<lambda>r. fillna 0 (col_u_numeric r)) (snapshot df tv)) = Inr row"
    using assign_row_fits [of "map (\<lambda>r. fillna 0 (col_u_numeric r)) (snapshot df tv)" ncols]
    by auto
  with m show ?case by simp
qed

lemma fill_matrix_Inr_fits:
  "fill_matrix df ncols tvs = Inr m \<Longrightarrow>
     list_all (\<lambda>tv. length (snapshot df tv) = ncols \<or> length (snapshot df tv) = 1) tvs"
proof (induction tvs arbitrary: m)
  case Nil
  then show ?case by simp
next
  case (Cons tv tvs)
  then show ?case
    by (auto simp: assign_row_def split: sum.splits if_splits)
qed

lemma heat_map_Inr_fits: "heat_map df = Inr hm \<Longrightarrow> fits_matrix df"
  using fill_matrix_Inr_fits [of df "length (sorted_unique (map col_x df))" "heatmap_times df"]
  by (auto simp: fits_matrix_def heat_map_def Let_def split: sum.splits)

lemma heat_map_fits: "fits_matrix df \<Longrightarrow> \<exists>hm. heat_map df = Inr hm"
  using fill_matrix_fits [of df "length (sorted_unique (map col_x df))" "heatmap_times df"]
  by (auto simp: fits_matrix_def heat_map_def Let_def)


lemma heat_map_Inr:
  "heat_map df = Inr hm \<Longrightarrow>
     hm_positions hm = sorted_unique (map col_x df) \<and> hm_times hm = heatmap_times df \<and>
     fill_matrix df (length (sorted_unique (map col_x df))) (heatmap_times df) = Inr (hm_matrix hm)"
  by (auto simp: heat_map_def Let_def split: sum.splits)

lemma length_snapshot: "length (snapshot df tv) = length (filter (\<lambda>r. col_t r = tv) df)"
  by (simp add: snapshot_def)

lemma length_heatmap_times:
  "length (heatmap_times df) =
     (card (col_t ` set df) + heatmap_step (card (col_t ` set df)) - 1)
       div heatmap_step (card (col_t ` set df))"
proof -
  have "0 < heatmap_step (card (col_t ` set df))" by (simp add: heatmap_step_def)
  from length_stride_slice [OF this, of "sorted_unique (map col_t df)"]
  show ?thesis by (simp add: heatmap_times_def Let_def length_sorted_unique)
qed

lemma distinct_times_fit:
  assumes "distinct (map col_t df)"
  shows "fits_matrix df"
proof -
  have "length (snapshot df tv) = 1" if "tv \<in> set (heatmap_times df)" for tv
  proof -
    have "tv \<in> set (sorted_unique (map col_t df))"
      using that
        set_stride_slice [of "heatmap_step (length (sorted_unique (map col_t df)))"
          "sorted_unique (map col_t df)"]
      by (auto simp: heatmap_times_def Let_def)
    then have "tv \<in> col_t ` set df" by (simp add: set_sorted_unique)
    from distinct_filter_one [OF assms this] show ?thesis by (simp add: length_snapshot)
  qed
  then show ?thesis by (simp add: fits_matrix_def list_all_iff)
qed

section \<open>Facts about \<open>plot_results\<close>\<close>

lemma snapshot_indices_bound: "i \<in> set (snapshot_indices n) \<Longrightarrow> i < n"
proof -
  assume a: "i \<in> set (snapshot_indices n)"
  show ?thesis
  proof (cases "n < 2")
    case True
    with a show ?thesis
      by (cases "n = 0") (auto simp: snapshot_indices_def Let_def)
  next
    case False
    define num where "num = min 6 n"
    have num: "2 \<le> num" using False by (simp add: num_def)
    from a False obtain j where j: "j < num" "i = (j * (n - 1)) div (num - 1)"
      by (auto simp: snapshot_indices_def Let_def num_def split: if_splits)
    have "j \<le> num - 1" using j by simp
    then have "j * (n - 1) \<le> (num - 1) * (n - 1)" by (rule mult_le_mono1)
    then have "(j * (n - 1)) div (num - 1) \<le> ((num - 1) * (n - 1)) div (num - 1)"
      by (rule div_le_mono)
    also have "\<dots> = n - 1" using num by simp
    finally show ?thesis using j False by simp
  qed
qed

lemma after_call_None: "after_call None rest = rest"
  by (simp add: after_call_def)

lemma after_call_Some: "after_call (Some e) rest = Inl e"
  by (simp add: after_call_def)

lemma after_call_Inr: "after_call r rest = Inr v \<longleftrightarrow> r = None \<and> rest = Inr v"
  by (cases r) (simp_all add: after_call_def)


lemma solution_evolution_in_range:
  "\<forall>i \<in> set is. i < length tvs \<Longrightarrow> \<forall>d. draw d = None \<Longrightarrow>
     \<exists>curves. solution_evolution draw df tvs is = Inr curves"
proof (induction "is")
  case Nil
  then show ?case by simp
next
  case (Cons i "is")
  from Cons.prems(1) have "\<forall>j \<in> set is. j < length tvs" by simp
  from Cons.IH [OF this Cons.prems(2)]
  obtain curves where c: "solution_evolution draw df tvs is = Inr curves" by blast
  have d: "draw (EvolutionCurve (tvs ! i)
             (map (\<lambda>r. (col_x r, col_u_numeric r)) (snapshot df (tvs ! i)))) = None"
    using Cons.prems(2) by simp
  from Cons.prems(1) have "i < length tvs" by simp
  with c d show ?case by (simp add: list_get_def Let_def after_call_None)
qed


lemma plot_frame_returns:
  assumes "df \<noteq> []" and "fits_matrix df" and "\<forall>d. draw d = None"
  shows "\<exists>fig. plot_frame draw method_name df = Inr fig"
proof -
  let ?tvs = "sorted_unique (map col_t df)"
  obtain curves where c:
    "solution_evolution draw df ?tvs (snapshot_indices (length ?tvs)) = Inr curves"
    using solution_evolution_in_range [of "snapshot_indices (length ?tvs)" ?tvs draw df]
      snapshot_indices_bound assms(3) by blast
  obtain hm where hm: "heat_map df = Inr hm" using heat_map_fits [OF assms(2)] by blast
  have "?tvs \<noteq> []" using assms(1) by (simp add: sorted_unique_Nil)
  moreover have "draw d = None" for d using assms(3) by simp
  ultimately show ?thesis using c hm by (simp add: plot_frame_def Let_def after_call_None)
qed

lemma plot_frame_Inr:
  assumes "plot_frame draw method_name df = Inr fig"
  shows "df \<noteq> [] \<and> fits_matrix df \<and>
         fig_final_t fig = last (sorted_unique (map col_t df)) \<and>
         fig_error_panel fig = error_distribution (snapshot df (fig_final_t fig)) \<and>
         fig_summary fig =
           error_statistics (map col_error (valid_rows (snapshot df (fig_final_t fig)))) \<and>
         heat_map df = Inr (fig_heatmap fig)"
proof -
  have ne: "sorted_unique (map col_t df) \<noteq> []"
    using assms
    by (auto simp: plot_frame_def Let_def after_call_Inr split: sum.splits if_splits)
  then have "df \<noteq> []" by (auto simp: sorted_unique_def)
  moreover obtain hm where hm: "heat_map df = Inr hm"
    using assms ne
    by (auto simp: plot_frame_def Let_def after_call_Inr split: sum.splits if_splits)
  moreover have "fits_matrix df" using heat_map_Inr_fits [OF hm] .
  ultimately show ?thesis
    using assms ne
    by (auto simp: plot_frame_def Let_def after_call_Inr split: sum.splits if_splits)
qed


lemma plot_frame_no_rows: "plot_frame quiet method_name [] = Inl IndexError"
  by (simp add: plot_frame_def sorted_unique_def snapshot_indices_def quiet_def after_call_None)

lemma plot_results_existing:
  "fs csv_file = Some rows \<Longrightarrow>
     plot_results draw fs csv_file method_name =
       (case plot_frame draw method_name (recompute_error rows) of
          Inl e \<Rightarrow> Inl e
        | Inr fig \<Rightarrow> Inr (Saved fig))"
  by (simp add: plot_results_def)

lemma map_col_t_recompute: "map col_t (recompute_error rows) = map raw_t rows"
  by (simp add: recompute_error_def recompute_row_def Let_def)

lemma map_col_x_recompute: "map col_x (recompute_error rows) = map raw_x rows"
  by (simp add: recompute_error_def recompute_row_def Let_def)

lemma recompute_error_Nil: "recompute_error rows = [] \<longleftrightarrow> rows = []"
  by (simp add: recompute_error_def)

lemma set_snapshot: "set (snapshot df tv) = {r \<in> set df. col_t r = tv}"
  by (auto simp: snapshot_def)

lemma snapshot_last_nonempty:
  assumes "df \<noteq> []"
  shows "snapshot df (last (sorted_unique (map col_t df))) \<noteq> []"
proof -
  have "sorted_unique (map col_t df) \<noteq> []" using assms by (simp add: sorted_unique_Nil)
  then have "last (sorted_unique (map col_t df)) \<in> set (sorted_unique (map col_t df))"
    by simp
  then have "last (sorted_unique (map col_t df)) \<in> col_t ` set df"
    by (simp add: set_sorted_unique)
  then have "set (snapshot df (last (sorted_unique (map col_t df)))) \<noteq> {}"
    by (auto simp: set_snapshot)
  then show ?thesis by auto
qed

section \<open>Facts about the error column and its statistics\<close>




lemma recompute_row_ignores_stored:
  "recompute_row (r\<lparr>raw_error := e\<rparr>) = recompute_row r"
  by (simp add: recompute_row_def)

lemma recomputed_error_value:
  "col_error (recompute_row r) =
     replace_inf (fl_abs (fl_sub (to_numeric (raw_u_numeric r)) (to_numeric (raw_u_exact r))))"
  by (simp add: recompute_row_def Let_def)

lemma recomputed_error_not_infinite:
  "col_error (recompute_row r) \<noteq> PInf \<and> col_error (recompute_row r) \<noteq> NInf"
  by (cases "fl_abs (fl_sub (to_numeric (raw_u_numeric r)) (to_numeric (raw_u_exact r)))")
     (simp_all add: recomputed_error_value)

lemma plot_results_ignores_stored:
  "plot_results draw (fs(csv_file \<mapsto> map (\<lambda>r. r\<lparr>raw_error := e r\<rparr>) rows)) csv_file method_name =
   plot_results draw (fs(csv_file \<mapsto> rows)) csv_file method_name"
  by (simp add: plot_results_def recompute_error_def recompute_row_ignores_stored comp_def)

lemma equal_values_error_zero:
  "raw_u_numeric r = Num (Fin v) \<Longrightarrow> raw_u_exact r = Num (Fin v) \<Longrightarrow>
     col_error (recompute_row r) = Fin 0"
  by (simp add: recompute_row_def Let_def fl_sub_def)

lemma series_sum_zero: "list_all (\<lambda>v. v = Fin 0) vs \<Longrightarrow> foldl fl_add (Fin 0) vs = Fin 0"
  by (induction vs) auto

lemma series_max_zero: "list_all (\<lambda>v. v = Fin 0) vs \<Longrightarrow> foldl np_maximum (Fin 0) vs = Fin 0"
  by (induction vs) (auto simp: np_maximum_def)

lemma dropna_zero: "list_all (\<lambda>v. v = Fin 0) vs \<Longrightarrow> dropna vs = vs"
  by (induction vs) (auto simp: dropna_def)

lemma error_statistics_zero:
  assumes "vs \<noteq> []" and "list_all (\<lambda>v. v = Fin 0) vs"
  shows "error_statistics vs = \<lparr>l2_error = Fin 0, linf_error = Fin 0, mean_error = Fin 0\<rparr>"
proof -
  have sq: "list_all (\<lambda>v. v = Fin 0) (map fl_sq vs)"
    using assms(2) by (induction vs) auto
  have m: "series_mean vs = Fin 0"
    using assms by (simp add: series_mean_def series_sum_def dropna_zero series_sum_zero)
  have m2: "series_mean (map fl_sq vs) = Fin 0"
    using assms(1) sq by (simp add: series_mean_def series_sum_def dropna_zero series_sum_zero)
  obtain v rest where vs: "vs = v # rest" using assms(1) by (cases vs) auto
  have mx: "series_max vs = Fin 0"
    using assms(2) vs by (simp add: series_max_def dropna_zero series_max_zero)
  show ?thesis using assms(1) m m2 mx by (simp add: error_statistics_def)
qed

section \<open>Facts about the comparison loop\<close>

lemma length_colors: "length colors = 4" by (simp add: colors_def)

lemma length_markers: "length markers = 4" by (simp add: markers_def)

lemma method_entry_of_out_of_range:
  "4 \<le> idx \<Longrightarrow> method_entry_of idx method rows = Inl IndexError"
  by (simp add: method_entry_of_def list_get_def length_colors Let_def)

lemma method_entry_of_in_range:
  "idx < 4 \<Longrightarrow> \<exists>entry. method_entry_of idx method rows = Inr entry \<and> me_idx entry = idx \<and> me_label entry = method"
  by (simp add: method_entry_of_def list_get_def length_colors length_markers Let_def)

lemma compare_loop_index_error:
  "\<exists>p \<in> set ps. fs (fst (snd p)) \<noteq> None \<and> 4 \<le> fst p \<Longrightarrow> compare_loop fs ps st = Inl IndexError"
proof (induction ps arbitrary: st)
  case Nil
  then show ?case by simp
next
  case (Cons p ps)
  obtain idx csv_file label where p: "p = (idx, csv_file, label)" by (cases p) auto
  obtain warnings entries where st: "st = (warnings, entries)" by (cases st) auto
  show ?case
  proof (cases "fs csv_file")
    case None
    with Cons.prems p have "\<exists>q \<in> set ps. fs (fst (snd q)) \<noteq> None \<and> 4 \<le> fst q" by auto
    then show ?thesis using Cons.IH None p st by simp
  next
    case (Some rows)
    show ?thesis
    proof (cases "4 \<le> idx")
      case True
      then show ?thesis using Some p st by (simp add: method_entry_of_out_of_range)
    next
      case False
      then obtain entry where e: "method_entry_of idx label rows = Inr entry"
        using method_entry_of_in_range [of idx label rows] by auto
      from False Cons.prems p have "\<exists>q \<in> set ps. fs (fst (snd q)) \<noteq> None \<and> 4 \<le> fst q" by auto
      then show ?thesis using Cons.IH Some p st e by simp
    qed
  qed
qed

lemma existing_beyond_four:
  assumes "4 < length (filter P ps)"
  shows "\<exists>p \<in> set (enumerate 0 ps). P (snd p) \<and> 4 \<le> fst p"
proof -
  have "filter P ps = filter P (take 4 ps) @ filter P (drop 4 ps)"
    by (metis append_take_drop_id filter_append)
  moreover have "length (filter P (take 4 ps)) \<le> 4"
    by (rule order_trans [OF length_filter_le]) simp
  ultimately have "filter P (drop 4 ps) \<noteq> []" using assms by auto
  then obtain q where q: "q \<in> set (drop 4 ps)" "P q"
    by (metis filter_False)
  then obtain j where j: "j < length (drop 4 ps)" "drop 4 ps ! j = q"
    by (meson in_set_conv_nth)
  then have "4 + j < length ps" "ps ! (4 + j) = q" by auto
  then have "(4 + j, q) \<in> set (enumerate 0 ps)"
    by (simp add: in_set_enumerate_eq)
  with q show ?thesis by force
qed

lemma compare_loop_counts:
  "compare_loop fs ps st = Inr st' \<Longrightarrow>
     length (snd st') = length (snd st) + length (filter (\<lambda>p. fs (fst (snd p)) \<noteq> None) ps)"
proof (induction ps arbitrary: st)
  case Nil
  then show ?case by simp
next
  case (Cons p ps)
  obtain idx csv_file label where p: "p = (idx, csv_file, label)" by (cases p) auto
  obtain warnings entries where st: "st = (warnings, entries)" by (cases st) auto
  show ?case
  proof (cases "fs csv_file")
    case None
    then show ?thesis using Cons p st by simp
  next
    case (Some rows)
    then show ?thesis using Cons.prems p st Cons.IH
      by (auto split: sum.splits)
  qed
qed

lemma filter_enumerate_snd:
  "map (\<lambda>p. g (snd p)) (filter (\<lambda>p. P (snd p)) (enumerate n ps)) = map g (filter P ps)"
  by (induction ps arbitrary: n) auto

lemma compare_loop_result:
  "compare_loop fs ps st = Inr st' \<Longrightarrow>
     fst st' = fst st @ map (\<lambda>p. warning (fst (snd p))) (filter (\<lambda>p. fs (fst (snd p)) = None) ps) \<and>
     map me_label (snd st') =
       map me_label (snd st) @ map (\<lambda>p. snd (snd p)) (filter (\<lambda>p. fs (fst (snd p)) \<noteq> None) ps)"
proof (induction ps arbitrary: st)
  case Nil
  then show ?case by simp
next
  case (Cons p ps)
  obtain idx csv_file label where p: "p = (idx, csv_file, label)" by (cases p) auto
  obtain warnings entries where st: "st = (warnings, entries)" by (cases st) auto
  show ?case
  proof (cases "fs csv_file")
    case None
    then have "compare_loop fs ps (warnings @ [warning csv_file], entries) = Inr st'"
      using Cons.prems p st by simp
    from Cons.IH [OF this] show ?thesis using None p st by simp
  next
    case (Some rows)
    then obtain entry where e: "method_entry_of idx label rows = Inr entry"
      and rest: "compare_loop fs ps (warnings, entries @ [entry]) = Inr st'"
      using Cons.prems p st by (auto split: sum.splits)
    have "me_label entry = label"
      using e by (auto simp: method_entry_of_def Let_def split: sum.splits)
    with Cons.IH [OF rest] show ?thesis using Some p st by simp
  qed
qed

section \<open>The example tables, evaluated\<close>

lemma recompute_scenario_rows:
  "recompute_error scenario_rows =
     [\<lparr>col_t = 0, col_x = 0, col_u_numeric = Fin 0, col_u_exact = Fin 0, col_error = Fin 0\<rparr>,
      \<lparr>col_t = 0, col_x = 1, col_u_numeric = Fin 1, col_u_exact = Fin 1, col_error = Fin 0\<rparr>,
      \<lparr>col_t = 1, col_x = 0, col_u_numeric = Fin 0, col_u_exact = Fin 0, col_error = Fin 0\<rparr>,
      \<lparr>col_t = 1, col_x = 1, col_u_numeric = Fin 2, col_u_exact = Fin 2, col_error = Fin 0\<rparr>]"
  by (simp add: scenario_rows_def table_row_def recompute_error_def recompute_row_def Let_def
      fl_sub_def)

lemma fits_scenario_rows: "fits_matrix (recompute_error scenario_rows)"
  by (simp add: recompute_scenario_rows fits_matrix_def heatmap_times_def heatmap_step_def
      sorted_unique_def snapshot_def)





lemma recompute_infinite_rows:
  "recompute_error infinite_rows =
     [\<lparr>col_t = 0, col_x = 0, col_u_numeric = NaN, col_u_exact = NaN, col_error = NaN\<rparr>,
      \<lparr>col_t = 0, col_x = 1, col_u_numeric = NaN, col_u_exact = NaN, col_error = NaN\<rparr>,
      \<lparr>col_t = 1, col_x = 0, col_u_numeric = NaN, col_u_exact = NaN, col_error = NaN\<rparr>,
      \<lparr>col_t = 1, col_x = 1, col_u_numeric = NaN, col_u_exact = NaN, col_error = NaN\<rparr>]"
  by (simp add: infinite_rows_def table_row_def recompute_error_def recompute_row_def Let_def
      fl_sub_def)

lemma fits_infinite_rows: "fits_matrix (recompute_error infinite_rows)"
  by (simp add: recompute_infinite_rows fits_matrix_def heatmap_times_def heatmap_step_def
      sorted_unique_def snapshot_def)

lemma many_layers_times: "map raw_t many_layers = map real [0..<51]"
  by (simp add: many_layers_def table_row_def comp_def)

lemma many_layers_distinct: "distinct (map raw_t many_layers)"
  unfolding many_layers_times by (simp add: distinct_map inj_on_def)

section \<open>Facts about tokens and the value columns\<close>






lemma series_min_constant:
  "vs \<noteq> [] \<Longrightarrow> list_all (\<lambda>v. v = Fin c) vs \<Longrightarrow> series_min vs = Fin c"
proof -
  assume ne: "vs \<noteq> []" and all: "list_all (\<lambda>v. v = Fin c) vs"
  have d: "dropna vs = vs" using all by (induction vs) (auto simp: dropna_def)
  have f: "list_all (\<lambda>v. v = Fin c) ws \<Longrightarrow> foldl np_minimum (Fin c) ws = Fin c" for ws
    by (induction ws) (auto simp: np_minimum_def)
  obtain v rest where vs: "vs = v # rest" using ne by (cases vs) auto
  have "series_min vs = foldl np_minimum (hd vs) (tl vs)"
    using ne by (simp add: series_min_def d Let_def)
  with all f [of rest] vs show ?thesis by simp
qed

lemma series_max_constant:
  "vs \<noteq> [] \<Longrightarrow> list_all (\<lambda>v. v = Fin c) vs \<Longrightarrow> series_max vs = Fin c"
proof -
  assume ne: "vs \<noteq> []" and all: "list_all (\<lambda>v. v = Fin c) vs"
  have d: "dropna vs = vs" using all by (induction vs) (auto simp: dropna_def)
  have f: "list_all (\<lambda>v. v = Fin c) ws \<Longrightarrow> foldl np_maximum (Fin c) ws = Fin c" for ws
    by (induction ws) (auto simp: np_maximum_def)
  obtain v rest where vs: "vs = v # rest" using ne by (cases vs) auto
  have "series_max vs = foldl np_maximum (hd vs) (tl vs)"
    using ne by (simp add: series_max_def d Let_def)
  with all f [of rest] vs show ?thesis by simp
qed

lemma no_valid_error_summary:
  assumes "fs csv_file = Some rows"
    and "valid_rows (snapshot (recompute_error rows) (Max (set (map raw_t rows)))) = []"
    and "plot_results draw fs csv_file method_name = Inr (Saved fig)"
  shows "fig_summary fig = \<lparr>l2_error = NaN, linf_error = NaN, mean_error = NaN\<rparr> \<and>
         fig_error_panel fig = NoValidData"
proof -
  let ?df = "recompute_error rows"
  from assms(1,3) have pf: "plot_frame draw method_name ?df = Inr fig"
    by (auto simp: plot_results_def split: sum.splits)
  note f = plot_frame_Inr [OF pf]
  from f have "rows \<noteq> []" by (simp add: recompute_error_Nil)
  then have "last (sorted_unique (map col_t ?df)) = Max (set (map raw_t rows))"
    using last_sorted_unique [of "map raw_t rows"] by (simp add: map_col_t_recompute)
  with f assms(2) show ?thesis by (simp add: error_statistics_def error_distribution_def)
qed

lemma compare_three_sources:
  assumes "fs f1 = Some rows1" and "fs f2 = None" and "fs f3 = Some rows3"
  shows "\<exists>e1 e3. method_entry_of 0 m1 rows1 = Inr e1 \<and> method_entry_of 2 m3 rows3 = Inr e3 \<and>
           compare_methods fs [f1, f2, f3] [m1, m2, m3] =
             Inr \<lparr>cmp_warnings = [warning f2], cmp_methods = [e1, e3],
                  cmp_analytical = Some (analytical_curve rows1)\<rparr>"
proof -
  obtain e1 where e1: "method_entry_of 0 m1 rows1 = Inr e1"
    using method_entry_of_in_range [of 0 m1 rows1] by auto
  obtain e3 where e3: "method_entry_of 2 m3 rows3 = Inr e3"
    using method_entry_of_in_range [of 2 m3 rows3] by auto
  have "compare_methods fs [f1, f2, f3] [m1, m2, m3] =
          Inr \<lparr>cmp_warnings = [warning f2], cmp_methods = [e1, e3],
               cmp_analytical = Some (analytical_curve rows1)\<rparr>"
    using assms e1 e3 by (simp add: compare_methods_def enumerate_simps numeral_2_eq_2)
  with e1 e3 show ?thesis by blast
qed

section \<open>The claims\<close>



text \<open>
  C2.  A file that holds the header and no row has no valid error value, and
  \<open>plot_results\<close> raises on it: \<open>times\<close> is empty and \<open>times[-1]\<close> (line 59) raises
  \<open>IndexError\<close> before graph 3 and the summary are reached, so no statistics are
  reported and no placeholder is drawn.  No renderer makes the call return.  (For a
  table with rows, \<open>no_valid_error_summary\<close> above gives the NaN summary and the
  placeholder in every figure returned.)
\<close>

theorem no_rows_index_error:
  "valid_rows (recompute_error []) = [] \<and>
   plot_results quiet [''empty.csv'' \<mapsto> []] ''empty.csv'' ''FTCS'' = Inl IndexError \<and>
   isl (plot_results draw [''empty.csv'' \<mapsto> []] ''empty.csv'' ''FTCS'')"
proof -
  have "isl (plot_frame draw ''FTCS'' [])"
    using plot_frame_Inr [of draw "''FTCS''" "[]"] by (cases "plot_frame draw ''FTCS'' []") auto
  then show ?thesis
    by (auto simp: plot_results_def recompute_error_def valid_rows_def plot_frame_no_rows
        split: sum.splits)
qed

text \<open>
  C3.  The earlier script, \<open>src/plot_results.py\<close>, does not recompute the error: for a
  file whose stored \<open>error\<close> column says 1 while \<open>u_numeric\<close> and \<open>u_exact\<close> are equal,
  it reports \<open>l2 = linf = mean = 1\<close>, where the recomputed error is 0.  (The later script
  recomputes: \<open>recomputed_error_value\<close>, \<open>recomputed_error_not_infinite\<close> and
  \<open>plot_results_ignores_stored\<close> above.)
\<close>

theorem legacy_trusts_stored_error:
  "legacy_error_statistics stale_error_rows =
     Inr \<lparr>l2_error = Fin 1, linf_error = Fin 1, mean_error = Fin 1\<rparr> \<and>
   map col_error (recompute_error stale_error_rows) = [Fin 0]"
  by (simp add: stale_error_rows_def legacy_error_statistics_def legacy_heat_map_def
      heatmap_step_def assign_row_def sorted_unique_def Let_def
      series_mean_def series_max_def series_sum_def dropna_def
      recompute_error_def recompute_row_def fl_sub_def)

text \<open>
  C4 (as amended).  For a table with at least one row, \<open>n\<close> distinct times and
  \<open>step = max(1, n // 50)\<close>, the heat map has \<open>ceil(n / step)\<close> rows; that number never
  exceeds 99, and stays within 50 when \<open>n \<le> 50\<close> or 50 divides \<open>n\<close>.  The first row
  belongs to the smallest time, and every matrix that is built has one column per
  distinct position.  The matrix is built whenever the table fits.
\<close>

theorem heatmap_shape:
  assumes "rows \<noteq> []" and "n = card (raw_t ` set rows)" and "step = max 1 (n div 50)"
  shows "length (heatmap_times (recompute_error rows)) = nat \<lceil>real n / real step\<rceil> \<and>
         length (heatmap_times (recompute_error rows)) \<le> 99 \<and>
         (n \<le> 50 \<or> 50 dvd n \<longrightarrow> length (heatmap_times (recompute_error rows)) \<le> 50) \<and>
         hd (heatmap_times (recompute_error rows)) = Min (raw_t ` set rows) \<and>
         (\<forall>hm. heat_map (recompute_error rows) = Inr hm \<longrightarrow>
            hm_times hm = heatmap_times (recompute_error rows) \<and>
            length (hm_matrix hm) = length (hm_times hm) \<and>
            list_all (\<lambda>row. length row = card (raw_x ` set rows)) (hm_matrix hm) \<and>
            assign_row (card (raw_x ` set rows))
              (map (\<lambda>r. fillna 0 (col_u_numeric r))
                 (snapshot (recompute_error rows) (Min (raw_t ` set rows))))
              = Inr (hd (hm_matrix hm))) \<and>
         (fits_matrix (recompute_error rows) \<longrightarrow>
            (\<exists>hm. heat_map (recompute_error rows) = Inr hm))"
proof -
  let ?df = "recompute_error rows"
  have t: "col_t ` set ?df = raw_t ` set rows"
    using map_col_t_recompute [of rows] by (metis set_map)
  have x: "col_x ` set ?df = raw_x ` set rows"
    using map_col_x_recompute [of rows] by (metis set_map)
  have s: "step = heatmap_step n" using assms(3) by (simp add: heatmap_step_def)
  have pos: "0 < step" using assms(3) by simp
  have len: "length (heatmap_times ?df) = (n + step - 1) div step"
    using length_heatmap_times [of ?df] by (simp add: t s assms(2))
  have ne: "sorted_unique (map col_t ?df) \<noteq> []"
    using assms(1) by (simp add: sorted_unique_Nil recompute_error_Nil)
  have hd: "hd (heatmap_times ?df) = Min (raw_t ` set rows)"
    using hd_stride_slice [OF ne] hd_sorted_unique [of "map col_t ?df"] assms(1) t
    by (simp add: heatmap_times_def Let_def recompute_error_Nil)
  have tne: "heatmap_times ?df \<noteq> []"
    using ne by (simp add: heatmap_times_def Let_def stride_slice_Nil)
  have "hm_times hm = heatmap_times ?df \<and>
        length (hm_matrix hm) = length (hm_times hm) \<and>
        list_all (\<lambda>row. length row = card (raw_x ` set rows)) (hm_matrix hm) \<and>
        assign_row (card (raw_x ` set rows))
          (map (\<lambda>r. fillna 0 (col_u_numeric r)) (snapshot ?df (Min (raw_t ` set rows))))
          = Inr (hd (hm_matrix hm))"
    if "heat_map ?df = Inr hm" for hm
  proof -
    note h = heat_map_Inr [OF that]
    from h have f: "fill_matrix ?df (card (raw_x ` set rows)) (heatmap_times ?df) = Inr (hm_matrix hm)"
      using x by (simp add: length_sorted_unique)
    from fill_matrix_Inr [OF f] h tne hd show ?thesis by simp
  qed
  then show ?thesis
    using len hd heatmap_rows_bound [of n] heatmap_rows_cap [of n] heat_map_fits [of ?df]
      ceiling_div_nat [OF pos, of n]
    by (simp add: s)
qed

theorem heatmap_shape_witness:
  "scenario_rows \<noteq> [] \<and> card (raw_t ` set scenario_rows) = 2 \<and> max 1 (2 div 50) = (1::nat) \<and>
   length (heatmap_times (recompute_error scenario_rows)) = 2 \<and>
   hd (heatmap_times (recompute_error scenario_rows)) = 0 \<and>
   (\<exists>hm. heat_map (recompute_error scenario_rows) = Inr hm \<and>
      length (hm_matrix hm) = 2 \<and> list_all (\<lambda>row. length row = 2) (hm_matrix hm) \<and>
      hd (hm_matrix hm) = [Fin 0, Fin 1])"
proof -
  have n: "scenario_rows \<noteq> []" by (simp add: scenario_rows_def)
  have "raw_t ` set scenario_rows = {0, 1}"
    by (auto simp: scenario_rows_def table_row_def)
  then have c: "card (raw_t ` set scenario_rows) = 2" by simp
  have "raw_x ` set scenario_rows = {0, 1}"
    by (auto simp: scenario_rows_def table_row_def)
  then have cx: "card (raw_x ` set scenario_rows) = 2" by simp
  have m: "Min (raw_t ` set scenario_rows) = 0"
    by (simp add: scenario_rows_def table_row_def)
  have st: "(1::nat) = max 1 (2 div 50)" by simp
  have a: "assign_row 2 (map (\<lambda>r. fillna 0 (col_u_numeric r))
             (snapshot (recompute_error scenario_rows) 0)) = Inr [Fin 0, Fin 1]"
    by (simp add: recompute_scenario_rows snapshot_def assign_row_def)
  from heatmap_shape [where rows = scenario_rows and n = 2 and step = 1] n c st
    fits_scenario_rows
  obtain hm where "heat_map (recompute_error scenario_rows) = Inr hm"
    and "length (heatmap_times (recompute_error scenario_rows)) = 2"
    and "hd (heatmap_times (recompute_error scenario_rows)) = 0"
    and "length (hm_matrix hm) = 2" and "list_all (\<lambda>row. length row = 2) (hm_matrix hm)"
    and "hd (hm_matrix hm) = [Fin 0, Fin 1]"
    using cx m a by auto
  with n c show ?thesis by auto
qed

text \<open>
  C4 as stated fails: 51 distinct times give a step of 1 and a matrix of 51 rows, more
  than the cap of 50.
\<close>

theorem heatmap_cap_exceeded:
  "\<not> isl (heat_map (recompute_error many_layers)) \<and>
   length (hm_matrix (projr (heat_map (recompute_error many_layers)))) = 51"
proof -
  let ?df = "recompute_error many_layers"
  have d: "distinct (map col_t ?df)"
    using many_layers_distinct by (simp add: map_col_t_recompute)
  obtain hm where hm: "heat_map ?df = Inr hm"
    using heat_map_fits [OF distinct_times_fit [OF d]] by blast
  have "card (col_t ` set ?df) = length (map col_t ?df)"
    using distinct_card [OF d] by (simp only: set_map)
  also have "\<dots> = 51" by (simp add: many_layers_def recompute_error_def)
  finally have "length (heatmap_times ?df) = 51"
    using length_heatmap_times [of ?df] by (simp add: heatmap_step_def)
  moreover have "length (hm_matrix hm) = length (heatmap_times ?df)"
    using fill_matrix_Inr heat_map_Inr [OF hm] by blast
  ultimately show ?thesis using hm by simp
qed

text \<open>
  C5.  With five sources that exist followed by a missing one, the loop ends at the
  fifth source with the \<open>IndexError\<close> of \<open>colors[idx]\<close> (line 221), before the missing
  source is looked at: no warning is printed for it and the comparison aborts.  (With
  three sources of which the second is missing the comparison returns as claimed:
  \<open>compare_three_sources\<close> above.)
\<close>

theorem compare_stops_before_missing:
  "(\<lambda>f. if f = ''f.csv'' then None else Some scenario_rows) ''f.csv'' = None \<and>
   compare_loop (\<lambda>f. if f = ''f.csv'' then None else Some scenario_rows)
     (enumerate 0 (zip [''a.csv'', ''b.csv'', ''c.csv'', ''d.csv'', ''e.csv'']
        [''A'', ''B'', ''C'', ''D'', ''E''])) ([], []) = Inl IndexError \<and>
   compare_methods (\<lambda>f. if f = ''f.csv'' then None else Some scenario_rows)
     [''a.csv'', ''b.csv'', ''c.csv'', ''d.csv'', ''e.csv'', ''f.csv'']
     [''A'', ''B'', ''C'', ''D'', ''E'', ''F''] = Inl IndexError"
proof -
  let ?fs = "\<lambda>f. if f = ''f.csv'' then None else Some scenario_rows"
  have "compare_loop ?fs
     (enumerate 0 (zip [''a.csv'', ''b.csv'', ''c.csv'', ''d.csv'', ''e.csv'']
        [''A'', ''B'', ''C'', ''D'', ''E''])) ([], []) = Inl IndexError"
    by (rule compare_loop_index_error) (simp add: enumerate_simps)
  moreover have "compare_loop ?fs
     (enumerate 0 (zip [''a.csv'', ''b.csv'', ''c.csv'', ''d.csv'', ''e.csv'', ''f.csv'']
        [''A'', ''B'', ''C'', ''D'', ''E'', ''F''])) ([], []) = Inl IndexError"
    by (rule compare_loop_index_error) (simp add: enumerate_simps)
  ultimately show ?thesis by (simp add: compare_methods_def)
qed

text \<open>
  C6 (as amended).  When \<open>u_numeric\<close> and \<open>u_exact\<close> hold the same finite number in every
  row, every figure returned reports \<open>l2 = linf = mean = 0\<close> for the final time layer,
  while the curve of graph 3 holds the floor \<open>epsilon\<close> at every position, between the
  limits \<open>epsilon\<close> and \<open>2 * epsilon\<close>: the floor enters the plotted values only.  A
  figure is returned whenever the table has a row, fits the heat map and no drawing call
  raises.
\<close>

theorem exact_solution_zero_errors:
  assumes "fs csv_file = Some rows"
    and "\<forall>r \<in> set rows. \<exists>v. raw_u_numeric r = Num (Fin v) \<and> raw_u_exact r = Num (Fin v)"
  shows "(\<forall>fig. plot_results draw fs csv_file method_name = Inr (Saved fig) \<longrightarrow>
            fig_final_t fig = Max (set (map raw_t rows)) \<and>
            fig_summary fig = \<lparr>l2_error = Fin 0, linf_error = Fin 0, mean_error = Fin 0\<rparr> \<and>
            fig_error_panel fig =
              ErrorCurve (map col_x (snapshot (recompute_error rows) (fig_final_t fig)))
                (map (\<lambda>r. Fin epsilon) (snapshot (recompute_error rows) (fig_final_t fig)))
                (Fin epsilon) (Fin (2 * epsilon)) \<and>
            snapshot (recompute_error rows) (fig_final_t fig) \<noteq> []) \<and>
         (rows \<noteq> [] \<and> fits_matrix (recompute_error rows) \<and> (\<forall>d. draw d = None) \<longrightarrow>
            (\<exists>fig. plot_results draw fs csv_file method_name = Inr (Saved fig)))"
proof -
  let ?df = "recompute_error rows"
  note pr = plot_results_existing [of fs csv_file rows draw method_name, OF assms(1)]
  have zero: "col_error q = Fin 0" if "q \<in> set ?df" for q
    using that assms(2) by (auto simp: recompute_error_def equal_values_error_zero)
  have "fig_final_t fig = Max (set (map raw_t rows)) \<and>
        fig_summary fig = \<lparr>l2_error = Fin 0, linf_error = Fin 0, mean_error = Fin 0\<rparr> \<and>
        fig_error_panel fig =
          ErrorCurve (map col_x (snapshot ?df (fig_final_t fig)))
            (map (\<lambda>r. Fin epsilon) (snapshot ?df (fig_final_t fig)))
            (Fin epsilon) (Fin (2 * epsilon)) \<and>
        snapshot ?df (fig_final_t fig) \<noteq> []"
    if "plot_results draw fs csv_file method_name = Inr (Saved fig)" for fig
  proof -
    from that have pf: "plot_frame draw method_name ?df = Inr fig"
      using pr by (auto split: sum.splits)
    note f = plot_frame_Inr [OF pf]
    let ?final = "snapshot ?df (fig_final_t fig)"
    from f have ne: "?df \<noteq> []" by simp
    then have rows: "rows \<noteq> []" by (simp add: recompute_error_Nil)
    have t: "fig_final_t fig = Max (set (map raw_t rows))"
      using f last_sorted_unique [of "map raw_t rows"] rows by (simp add: map_col_t_recompute)
    have fne: "?final \<noteq> []" using f snapshot_last_nonempty [OF ne] by simp
    have all0: "\<forall>q \<in> set ?final. col_error q = Fin 0"
      using zero by (auto simp: set_snapshot)
    then have v: "valid_rows ?final = ?final"
      by (auto simp: valid_rows_def intro: filter_True)
    have l: "list_all (\<lambda>v. v = Fin 0) (map col_error ?final)"
      using all0 by (simp add: list_all_iff)
    have st: "error_statistics (map col_error ?final) =
                \<lparr>l2_error = Fin 0, linf_error = Fin 0, mean_error = Fin 0\<rparr>"
      using fne l by (intro error_statistics_zero) auto
    have fl: "map log_floor (map col_error ?final) = map (\<lambda>r. Fin epsilon) ?final"
      using all0 by (auto simp: log_floor_def np_maximum_def epsilon_def)
    have c: "list_all (\<lambda>v. v = Fin epsilon) (map (\<lambda>r. Fin epsilon) ?final)"
      by (simp add: list_all_iff)
    have mn: "series_min (map (\<lambda>r. Fin epsilon) ?final) = Fin epsilon"
      using fne c by (intro series_min_constant) auto
    have mx: "series_max (map (\<lambda>r. Fin epsilon) ?final) = Fin epsilon"
      using fne c by (intro series_max_constant) auto
    have lo: "py_max (fl_scale (Fin epsilon) (1 / 2)) (Fin epsilon) = Fin epsilon"
      by (simp add: py_max_def epsilon_def)
    have hi: "fl_scale (Fin epsilon) 2 = Fin (2 * epsilon)"
      by simp
    have "error_distribution ?final =
            (let err_plot = map log_floor (map col_error ?final)
             in ErrorCurve (map col_x ?final) err_plot
                  (py_max (fl_scale (series_min err_plot) (1 / 2)) (Fin epsilon))
                  (fl_scale (series_max err_plot) 2))"
      using fne by (simp add: error_distribution_def v Let_def)
    also have "\<dots> = ErrorCurve (map col_x ?final) (map (\<lambda>r. Fin epsilon) ?final)
              (Fin epsilon) (Fin (2 * epsilon))"
      by (simp only: Let_def fl mn mx lo hi)
    finally have "error_distribution ?final =
            ErrorCurve (map col_x ?final) (map (\<lambda>r. Fin epsilon) ?final)
              (Fin epsilon) (Fin (2 * epsilon))" .
    with f t st fne v show ?thesis by simp
  qed
  moreover have "\<exists>fig. plot_results draw fs csv_file method_name = Inr (Saved fig)"
    if "rows \<noteq> [] \<and> fits_matrix ?df \<and> (\<forall>d. draw d = None)"
  proof -
    from that have "?df \<noteq> []" by (simp add: recompute_error_Nil)
    from plot_frame_returns [OF this, of draw method_name] that pr
    show ?thesis by auto
  qed
  ultimately show ?thesis by blast
qed

theorem exact_solution_zero_errors_witness:
  "list_all (\<lambda>r. \<exists>v. raw_u_numeric r = Num (Fin v) \<and> raw_u_exact r = Num (Fin v)) scenario_rows \<and>
   (\<exists>fig. plot_results quiet [''ftcs.csv'' \<mapsto> scenario_rows] ''ftcs.csv'' ''FTCS'' = Inr (Saved fig) \<and>
          fig_final_t fig = 1 \<and>
          fig_summary fig = \<lparr>l2_error = Fin 0, linf_error = Fin 0, mean_error = Fin 0\<rparr> \<and>
          fig_error_panel fig =
            ErrorCurve [0, 1] [Fin (1 / 10 ^ 20), Fin (1 / 10 ^ 20)]
              (Fin (1 / 10 ^ 20)) (Fin (2 / 10 ^ 20)))"
proof -
  have m: "Max (raw_t ` set scenario_rows) = 1"
    by (simp add: scenario_rows_def table_row_def)
  have n: "scenario_rows \<noteq> []" by (simp add: scenario_rows_def)
  have e: "\<forall>r \<in> set scenario_rows. \<exists>v. raw_u_numeric r = Num (Fin v) \<and> raw_u_exact r = Num (Fin v)"
    by (simp add: scenario_rows_def table_row_def)
  have f: "[''ftcs.csv'' \<mapsto> scenario_rows] ''ftcs.csv'' = Some scenario_rows" by simp
  have q: "\<forall>d. quiet d = None" by (simp add: quiet_def)
  have s: "snapshot (recompute_error scenario_rows) 1 =
     [\<lparr>col_t = 1, col_x = 0, col_u_numeric = Fin 0, col_u_exact = Fin 0, col_error = Fin 0\<rparr>,
      \<lparr>col_t = 1, col_x = 1, col_u_numeric = Fin 2, col_u_exact = Fin 2, col_error = Fin 0\<rparr>]"
    by (simp add: recompute_scenario_rows snapshot_def)
  note z = exact_solution_zero_errors [where fs = "[''ftcs.csv'' \<mapsto> scenario_rows]"
      and csv_file = "''ftcs.csv''" and rows = scenario_rows and method_name = "''FTCS''"
      and draw = quiet, OF f e]
  from z n fits_scenario_rows q
  obtain fig where fig: "plot_results quiet [''ftcs.csv'' \<mapsto> scenario_rows] ''ftcs.csv'' ''FTCS'' = Inr (Saved fig)"
    by blast
  with z have rest: "fig_final_t fig = Max (set (map raw_t scenario_rows))"
      "fig_summary fig = \<lparr>l2_error = Fin 0, linf_error = Fin 0, mean_error = Fin 0\<rparr>"
      "fig_error_panel fig =
              ErrorCurve (map col_x (snapshot (recompute_error scenario_rows) (fig_final_t fig)))
                (map (\<lambda>r. Fin epsilon) (snapshot (recompute_error scenario_rows) (fig_final_t fig)))
                (Fin epsilon) (Fin (2 * epsilon))"
    by blast+
  from rest have "fig_final_t fig = 1"
    "fig_error_panel fig =
       ErrorCurve [0, 1] [Fin (1 / 10 ^ 20), Fin (1 / 10 ^ 20)] (Fin (1 / 10 ^ 20)) (Fin (2 / 10 ^ 20))"
    by (simp_all add: m s epsilon_def)
  with fig rest e show ?thesis unfolding list_all_iff by blast
qed

text \<open>
  C6 as stated fails: with \<open>inf\<close> in both value columns of every row the two columns are
  equal, line 22 turns the values and their error into NaN, and the figure reports
  \<open>l2 = linf = mean = NaN\<close> with the placeholder in graph 3.
\<close>

theorem equal_infinities_nan_summary:
  "list_all (\<lambda>r. raw_u_numeric r = raw_u_exact r) infinite_rows \<and>
   (\<exists>fig. plot_results quiet [''ftcs.csv'' \<mapsto> infinite_rows] ''ftcs.csv'' ''FTCS'' = Inr (Saved fig) \<and>
          fig_final_t fig = 1 \<and>
          fig_summary fig = \<lparr>l2_error = NaN, linf_error = NaN, mean_error = NaN\<rparr> \<and>
          fig_error_panel fig = NoValidData)"
proof -
  have m: "Max (raw_t ` set infinite_rows) = 1"
    by (simp add: infinite_rows_def table_row_def)
  have n: "recompute_error infinite_rows \<noteq> []" by (simp add: recompute_infinite_rows)
  have v: "valid_rows (snapshot (recompute_error infinite_rows)
             (Max (set (map raw_t infinite_rows)))) = []"
    by (simp add: m recompute_infinite_rows snapshot_def valid_rows_def)
  have f: "[''ftcs.csv'' \<mapsto> infinite_rows] ''ftcs.csv'' = Some infinite_rows" by simp
  have q: "\<forall>d. quiet d = None" by (simp add: quiet_def)
  obtain fig where pf: "plot_frame quiet ''FTCS'' (recompute_error infinite_rows) = Inr fig"
    using plot_frame_returns [OF n fits_infinite_rows q] by blast
  then have fig: "plot_results quiet [''ftcs.csv'' \<mapsto> infinite_rows] ''ftcs.csv'' ''FTCS'' =
      Inr (Saved fig)"
    by (simp add: plot_results_def)
  have "infinite_rows \<noteq> []" by (simp add: infinite_rows_def)
  then have "last (sorted_unique (map raw_t infinite_rows)) = 1"
    using last_sorted_unique [of "map raw_t infinite_rows"] by (simp add: m)
  then have "fig_final_t fig = 1"
    using plot_frame_Inr [OF pf] by (simp add: map_col_t_recompute)
  moreover note no_valid_error_summary [OF f v fig]
  moreover have "list_all (\<lambda>r. raw_u_numeric r = raw_u_exact r) infinite_rows"
    by (simp add: infinite_rows_def table_row_def)
  ultimately show ?thesis using fig by blast
qed

text \<open>
  C7.  The floor applied for the log axis, \<open>np.maximum(v, 1e-20)\<close>, returns every value
  at or above the floor unchanged, turns 0 into the floor, and is idempotent.
\<close>

theorem log_floor_idempotent:
  "(epsilon \<le> v \<longrightarrow> log_floor (Fin v) = Fin v) \<and> log_floor PInf = PInf \<and>
   log_floor (Fin 0) = Fin epsilon \<and> log_floor (log_floor w) = log_floor w"
  by (cases w) (auto simp: log_floor_def np_maximum_def epsilon_def)

theorem log_floor_idempotent_witness:
  "epsilon \<le> 1 / 2 \<and> log_floor (Fin (1 / 2)) = Fin (1 / 2) \<and> log_floor (Fin 0) = Fin (1 / 10 ^ 20)"
  using log_floor_idempotent [of "1 / 2" NaN] by (simp add: epsilon_def)

text \<open>
  C8.  The analytical curve is read from \<open>csv_files[0]\<close>, the first source listed, without
  the test the loop makes: when that file is missing while a later one exists, the loop
  skips the first, draws the second, and the read of line 234 raises.
\<close>

theorem reference_curve_first_listed:
  "compare_methods [''btcs.csv'' \<mapsto> scenario_rows] [''ftcs.csv'', ''btcs.csv''] [''FTCS'', ''BTCS'']
     = Inl FileNotFoundError"
  by (simp add: compare_methods_def enumerate_simps method_entry_of_def list_get_def
      colors_def markers_def Let_def)

text \<open>
  C9 (as amended).  When the source does not exist, \<open>plot_results\<close> prints its message and
  returns without a figure; the script then ends with exit status 0.  In the comparison
  loop the same source costs a warning and is skipped, and every comparison that returns
  holds that warning.
\<close>

theorem missing_source_single_mode:
  assumes "fs csv_file = None"
  shows "plot_results draw fs csv_file method_name =
           Inr (NotFound (''Error: File '' @ csv_file @ '' not found!'')) \<and>
         (csv_file \<noteq> ''compare'' \<longrightarrow>
            main draw fs [prog, csv_file] = 0 \<and> main draw fs [prog, csv_file, method_name] = 0) \<and>
         compare_loop fs ((idx, csv_file, label) # rest) (warnings, entries) =
           compare_loop fs rest (warnings @ [warning csv_file], entries) \<and>
         (\<forall>rep. compare_methods fs csv_files method_names = Inr rep \<and>
                csv_file \<in> fst ` set (zip csv_files method_names) \<longrightarrow>
                warning csv_file \<in> set (cmp_warnings rep))"
proof -
  have "warning csv_file \<in> set (cmp_warnings rep)"
    if r: "compare_methods fs csv_files method_names = Inr rep"
      and m: "csv_file \<in> fst ` set (zip csv_files method_names)" for rep
  proof -
    let ?ps = "enumerate 0 (zip csv_files method_names)"
    from r obtain st' where l: "compare_loop fs ?ps ([], []) = Inr st'"
      and w: "cmp_warnings rep = fst st'"
      by (auto simp: compare_methods_def split: sum.splits if_splits option.splits)
    have "fst st' = map (\<lambda>q. warning (fst q))
                      (filter (\<lambda>q. fs (fst q) = None) (zip csv_files method_names))"
      using compare_loop_result [OF l]
        filter_enumerate_snd [of "\<lambda>q. warning (fst q)" "\<lambda>q. fs (fst q) = None" 0
          "zip csv_files method_names"]
      by simp
    moreover from m obtain q where "q \<in> set (zip csv_files method_names)" "fst q = csv_file"
      by auto
    ultimately show ?thesis using assms w by force
  qed
  then show ?thesis
    using assms by (simp add: plot_results_def main_def exit_status_def)
qed

theorem missing_source_single_mode_witness:
  "[''ftcs.csv'' \<mapsto> scenario_rows] ''missing.csv'' = None \<and>
   plot_results quiet [''ftcs.csv'' \<mapsto> scenario_rows] ''missing.csv'' ''BTCS'' =
     Inr (NotFound ''Error: File missing.csv not found!'') \<and>
   main quiet [''ftcs.csv'' \<mapsto> scenario_rows] [''plot_results.py'', ''missing.csv'', ''BTCS''] = 0 \<and>
   compare_loop [''ftcs.csv'' \<mapsto> scenario_rows] [(1, ''missing.csv'', ''BTCS'')] ([], []) =
     Inr ([warning ''missing.csv''], []) \<and>
   (\<exists>rep. compare_methods [''ftcs.csv'' \<mapsto> scenario_rows] [''ftcs.csv'', ''missing.csv'']
            [''FTCS'', ''BTCS''] = Inr rep \<and>
          warning ''missing.csv'' \<in> set (cmp_warnings rep))"
proof -
  obtain e where "method_entry_of 0 ''FTCS'' scenario_rows = Inr e"
    using method_entry_of_in_range [of 0 "''FTCS''" scenario_rows] by auto
  then have "\<exists>rep. compare_methods [''ftcs.csv'' \<mapsto> scenario_rows] [''ftcs.csv'', ''missing.csv'']
            [''FTCS'', ''BTCS''] = Inr rep"
    by (simp add: compare_methods_def enumerate_simps)
  then show ?thesis
    using missing_source_single_mode [where fs = "[''ftcs.csv'' \<mapsto> scenario_rows]"
      and csv_file = "''missing.csv''" and draw = quiet and method_name = "''BTCS''"
      and prog = "''plot_results.py''" and idx = 1 and label = "''BTCS''" and rest = "[]"
      and warnings = "[]" and entries = "[]" and csv_files = "[''ftcs.csv'', ''missing.csv'']"
      and method_names = "[''FTCS'', ''BTCS'']"]
    by auto
qed

text \<open>C9 as stated fails: the exit status for a missing file is 0.\<close>

theorem missing_source_exit_status:
  "plot_results quiet Map.empty ''missing.csv'' ''FTCS'' =
     Inr (NotFound ''Error: File missing.csv not found!'') \<and>
   main quiet Map.empty [''plot_results.py'', ''missing.csv'', ''FTCS''] = 0"
  by (simp add: plot_results_def main_def exit_status_def)

text \<open>
  C10.  With more than four sources that exist, the loop reaches an existing source at a
  position of 4 or more and \<open>colors[idx]\<close> raises \<open>IndexError\<close>; no comparison is
  returned.
\<close>

theorem compare_more_than_four:
  "(4 < length (filter (\<lambda>(csv_file, method). fs csv_file \<noteq> None) (zip csv_files method_names)) \<longrightarrow>
      compare_methods fs csv_files method_names = Inl IndexError) \<and>
   (\<forall>rep. compare_methods fs csv_files method_names = Inr rep \<longrightarrow>
      length (cmp_methods rep) =
        length (filter (\<lambda>(csv_file, method). fs csv_file \<noteq> None) (zip csv_files method_names)) \<and>
      length (cmp_methods rep) \<le> 4)"
proof -
  let ?ps = "enumerate 0 (zip csv_files method_names)"
  let ?existing = "filter (\<lambda>(csv_file, method). fs csv_file \<noteq> None) (zip csv_files method_names)"
  have raise: "compare_methods fs csv_files method_names = Inl IndexError" if "4 < length ?existing"
  proof -
    have "\<exists>p \<in> set ?ps. fs (fst (snd p)) \<noteq> None \<and> 4 \<le> fst p"
      using existing_beyond_four [OF that] by (auto simp: case_prod_beta)
    then show ?thesis
      by (simp add: compare_methods_def compare_loop_index_error)
  qed
  have count: "length (cmp_methods rep) = length ?existing \<and> length (cmp_methods rep) \<le> 4"
    if r: "compare_methods fs csv_files method_names = Inr rep" for rep
  proof -
    from r obtain st' where l: "compare_loop fs ?ps ([], []) = Inr st'"
      and m: "cmp_methods rep = snd st'"
      by (auto simp: compare_methods_def split: sum.splits if_splits option.splits)
    have "length (filter (\<lambda>p. fs (fst (snd p)) \<noteq> None) ?ps) = length ?existing"
      using arg_cong [OF filter_enumerate_snd [of id "\<lambda>q. fs (fst q) \<noteq> None" 0
            "zip csv_files method_names"], of length]
      by (simp add: case_prod_unfold)
    with compare_loop_counts [OF l] m have e: "length (cmp_methods rep) = length ?existing"
      by simp
    moreover have "\<not> 4 < length ?existing" using raise r by auto
    ultimately show ?thesis by simp
  qed
  from raise count show ?thesis by blast
qed

theorem compare_more_than_four_witness:
  "4 < length (filter (\<lambda>(csv_file, method). (\<lambda>f. Some scenario_rows) csv_file \<noteq> None)
         (zip [''a'', ''b'', ''c'', ''d'', ''e''] [''A'', ''B'', ''C'', ''D'', ''E'']))
   \<and> compare_methods (\<lambda>f. Some scenario_rows) [''a'', ''b'', ''c'', ''d'', ''e'']
         [''A'', ''B'', ''C'', ''D'', ''E''] = Inl IndexError"
  using compare_more_than_four [of "\<lambda>f. Some scenario_rows" "[''a'', ''b'', ''c'', ''d'', ''e'']"
      "[''A'', ''B'', ''C'', ''D'', ''E'']"]
  by simp

end
